theory Spec2Isabelle
  imports Complex_Main "HOL-Library.Sublist" "HOL-Library.Word"
begin

unbundle bit_operations_syntax

section \<open>JavaScript values as the relay sees them\<close>

text \<open>
  A value produced by \<^verbatim>\<open>JSON.parse\<close>. An object is the list of its properties, one binding
  per key; \<^verbatim>\<open>undefined\<close> is \<open>None\<close> of \<open>json option\<close>.
\<close>

datatype json =
    JNull
  | JBool bool
  | JNum real
  | JStr string
  | JArr "json list"
  | JObj "(string \<times> json) list"

datatype fault = TypeError | SyntaxError | RangeError

text \<open>
  Property read \<^verbatim>\<open>v.key\<close>. Reading a property of \<^verbatim>\<open>null\<close> throws; an object yields the
  bound value or \<^verbatim>\<open>undefined\<close>; the keys read by the server (\<^verbatim>\<open>type\<close>, \<^verbatim>\<open>call_id\<close>,
  \<^verbatim>\<open>name\<close>, \<^verbatim>\<open>arguments\<close>, \<^verbatim>\<open>designation\<close>, \<^verbatim>\<open>serviceName\<close>, \<^verbatim>\<open>query\<close>,
  \<^verbatim>\<open>category\<close>) are on no prototype, so every other value yields \<^verbatim>\<open>undefined\<close>.
\<close>

fun getprop :: "json \<Rightarrow> string \<Rightarrow> fault + json option" where
  "getprop JNull k = Inl TypeError"
| "getprop (JObj kvs) k = Inr (map_of kvs k)"
| "getprop v k = Inr None"

text \<open>Truthiness of a value in a condition.\<close>

fun truthy :: "json option \<Rightarrow> bool" where
  "truthy None = False"
| "truthy (Some JNull) = False"
| "truthy (Some (JBool b)) = b"
| "truthy (Some (JNum n)) = (n \<noteq> 0)"
| "truthy (Some (JStr s)) = (s \<noteq> [])"
| "truthy (Some (JArr xs)) = True"
| "truthy (Some (JObj kvs)) = True"

text \<open>
  The receiver of \<^verbatim>\<open>args.key.toLowerCase()\<close>: the call goes through only when
  \<^verbatim>\<open>args.key\<close> is a string. On \<^verbatim>\<open>undefined\<close> or \<^verbatim>\<open>null\<close> the property read throws, and
  no other value has a \<^verbatim>\<open>toLowerCase\<close> method, so calling it throws as well.
\<close>

definition string_arg :: "json \<Rightarrow> string \<Rightarrow> fault + string" where
  "string_arg args key =
     (case getprop args key of
        Inl e \<Rightarrow> Inl e
      | Inr (Some (JStr s)) \<Rightarrow> Inr s
      | Inr _ \<Rightarrow> Inl TypeError)"

text \<open>\<^verbatim>\<open>s.includes(t)\<close>: does \<open>t\<close> occur in \<open>s\<close> as a contiguous run.\<close>

fun str_includes :: "string \<Rightarrow> string \<Rightarrow> bool" where
  "str_includes [] t = (t = [])"
| "str_includes (c # cs) t = (prefix t (c # cs) \<or> str_includes cs t)"

text \<open>\<^verbatim>\<open>xs.join(sep)\<close> on a list of strings.\<close>

fun join :: "string \<Rightarrow> string list \<Rightarrow> string" where
  "join sep [] = []"
| "join sep [x] = x"
| "join sep (x # y # ys) = x @ sep @ join sep (y # ys)"

section \<open>Knowledge base\<close>

text \<open>
  The three datasets read from \<^verbatim>\<open>public/*.json\<close> when the server starts. The files are not
  part of the sources, so the datasets are parameters; the fields are those the server reads.
\<close>

record employee =
  emp_name :: string
  emp_designation :: string
  emp_email :: string
  emp_details :: "(string \<times> json) list"

record service =
  svc_title :: string
  svc_description :: string

record faq =
  question :: string
  answer :: string

record faqCategory =
  title_highlight :: string
  faqs :: "faq list"

record about =
  company_name :: string
  description :: string
  closing_statement :: string
  services_intro :: string
  services :: "service list"

record knowledgeBase =
  employees :: "employee list"
  aboutData :: about
  faqData :: "faqCategory list"

section \<open>Tool dispatcher\<close>

text \<open>The objects \<^verbatim>\<open>executeTool\<close> returns, one constructor per shape.\<close>

datatype toolResult =
    Failure string
  | EmployeesFound "employee list"
  | EmployeesByDesignation nat "employee list"
  | AllEmployees nat "(string \<times> string \<times> string) list"
  | CompanyInfo string string string
  | ServicesFound "service list"
  | ServicesAll string "service list"
  | FAQResults nat "(string \<times> string \<times> string) list"
  | FAQsOfCategory string nat "faq list"

fun success :: "toolResult \<Rightarrow> bool" where
  "success (Failure m) = False"
| "success r = True"

definition quoted :: "string \<Rightarrow> string" where
  "quoted s = [CHR 0x22] @ s @ [CHR 0x22]"

text \<open>
  The library functions the server calls, as parameters: \<^verbatim>\<open>JSON.parse\<close> (\<open>None\<close> when it
  throws), \<^verbatim>\<open>JSON.stringify\<close> on a tool result, the conversion of a value that is not a
  string to the text \<^verbatim>\<open>JSON.parse\<close> and a template literal read, and
  \<^verbatim>\<open>String.prototype.toLowerCase\<close> on a text that has a character outside ASCII.
\<close>

record jsLib =
  JSON_parse :: "string \<Rightarrow> json option"
  JSON_stringify :: "toolResult \<Rightarrow> string"
  ToString :: "json option \<Rightarrow> string"
  unicode_toLowerCase :: "string \<Rightarrow> string"

text \<open>
  \<^verbatim>\<open>s.toLowerCase()\<close>. A text is a list of bytes; it is ASCII when the top bit of every
  byte is clear. On an ASCII text each of the letters A to Z becomes its small letter and
  nothing else changes; any other text goes to the library's case mapping.
\<close>

definition lower_char :: "char \<Rightarrow> char" where
  "lower_char c =
     (case map_of (zip ''ABCDEFGHIJKLMNOPQRSTUVWXYZ'' ''abcdefghijklmnopqrstuvwxyz'') c of
        None \<Rightarrow> c
      | Some l \<Rightarrow> l)"

definition is_ascii :: "string \<Rightarrow> bool" where
  "is_ascii s = list_all (\<lambda>c. \<not> digit7 c) s"

definition toLowerCase :: "jsLib \<Rightarrow> string \<Rightarrow> string" where
  "toLowerCase lib s = (if is_ascii s then map lower_char s else unicode_toLowerCase lib s)"

definition getEmployeeByName :: "jsLib \<Rightarrow> knowledgeBase \<Rightarrow> json \<Rightarrow> fault + toolResult" where
  "getEmployeeByName lib kb args =
     (case string_arg args ''name'' of
        Inl e \<Rightarrow> Inl e
      | Inr nm \<Rightarrow>
          (let searchTerm = toLowerCase lib nm;
               found = filter (\<lambda>emp. str_includes (toLowerCase lib (emp_name emp)) searchTerm)
                         (employees kb)
           in if length found = 0
              then Inr (Failure (''No employee found matching '' @ quoted nm))
              else Inr (EmployeesFound found)))"

definition getEmployeeByDesignation :: "jsLib \<Rightarrow> knowledgeBase \<Rightarrow> json \<Rightarrow> fault + toolResult" where
  "getEmployeeByDesignation lib kb args =
     (case string_arg args ''designation'' of
        Inl e \<Rightarrow> Inl e
      | Inr d \<Rightarrow>
          (let searchTerm = toLowerCase lib d;
               found = filter (\<lambda>emp. str_includes (toLowerCase lib (emp_designation emp)) searchTerm)
                         (employees kb)
           in if length found = 0
              then Inr (Failure (''No employees found with designation '' @ quoted d))
              else Inr (EmployeesByDesignation (length found) found)))"

definition getAllEmployees :: "knowledgeBase \<Rightarrow> toolResult" where
  "getAllEmployees kb =
     (let summary = map (\<lambda>emp. (emp_name emp, emp_designation emp, emp_email emp))
                      (employees kb)
      in AllEmployees (length (employees kb)) summary)"

definition getCompanyInfo :: "knowledgeBase \<Rightarrow> toolResult" where
  "getCompanyInfo kb =
     CompanyInfo (company_name (aboutData kb)) (description (aboutData kb))
       (closing_statement (aboutData kb))"

definition getServices :: "jsLib \<Rightarrow> knowledgeBase \<Rightarrow> json \<Rightarrow> fault + toolResult" where
  "getServices lib kb args =
     (case getprop args ''serviceName'' of
        Inl e \<Rightarrow> Inl e
      | Inr v \<Rightarrow>
          if truthy v then
            (case string_arg args ''serviceName'' of
               Inl e \<Rightarrow> Inl e
             | Inr sn \<Rightarrow>
                 (let searchTerm = toLowerCase lib sn;
                      found = filter (\<lambda>service.
                                str_includes (toLowerCase lib (svc_title service)) searchTerm \<or>
                                str_includes (toLowerCase lib (svc_description service)) searchTerm)
                                (services (aboutData kb))
                  in if length found = 0
                     then Inr (Failure (''No service found matching '' @ quoted sn))
                     else Inr (ServicesFound found)))
          else Inr (ServicesAll (services_intro (aboutData kb)) (services (aboutData kb))))"

definition searchFAQ :: "jsLib \<Rightarrow> knowledgeBase \<Rightarrow> json \<Rightarrow> fault + toolResult" where
  "searchFAQ lib kb args =
     (case string_arg args ''query'' of
        Inl e \<Rightarrow> Inl e
      | Inr q \<Rightarrow>
          (let searchTerm = toLowerCase lib q;
               results = concat (map (\<lambda>category.
                           map (\<lambda>f. (title_highlight category, question f, answer f))
                             (filter (\<lambda>f. str_includes (toLowerCase lib (question f)) searchTerm \<or>
                                            str_includes (toLowerCase lib (answer f)) searchTerm)
                                (faqs category)))
                           (faqData kb))
           in if length results = 0
              then Inr (Failure (''No FAQs found matching '' @ quoted q))
              else Inr (FAQResults (length results) results)))"

definition getFAQsByCategory :: "jsLib \<Rightarrow> knowledgeBase \<Rightarrow> json \<Rightarrow> fault + toolResult" where
  "getFAQsByCategory lib kb args =
     (case string_arg args ''category'' of
        Inl e \<Rightarrow> Inl e
      | Inr c \<Rightarrow>
          (let searchTerm = toLowerCase lib c
           in case find (\<lambda>cat. str_includes (toLowerCase lib (title_highlight cat)) searchTerm)
                     (faqData kb) of
                None \<Rightarrow>
                  (let categories = map title_highlight (faqData kb)
                   in Inr (Failure (''Category not found. Available: '' @
                                    join '', '' categories)))
              | Some found \<Rightarrow>
                  Inr (FAQsOfCategory (title_highlight found) (length (faqs found))
                         (faqs found))))"

text \<open>
  \<^verbatim>\<open>executeTool(name, args)\<close>: the \<^verbatim>\<open>switch\<close> over the tool name, in the order of the source.
  \<open>Inl\<close> is a fault thrown to the caller.
\<close>

definition executeTool :: "jsLib \<Rightarrow> knowledgeBase \<Rightarrow> string \<Rightarrow> json \<Rightarrow> fault + toolResult" where
  "executeTool lib kb name args =
     (if name = ''getEmployeeByName'' then getEmployeeByName lib kb args
      else if name = ''getEmployeeByDesignation'' then getEmployeeByDesignation lib kb args
      else if name = ''getAllEmployees'' then Inr (getAllEmployees kb)
      else if name = ''getCompanyInfo'' then Inr (getCompanyInfo kb)
      else if name = ''getServices'' then getServices lib kb args
      else if name = ''searchFAQ'' then searchFAQ lib kb args
      else if name = ''getFAQsByCategory'' then getFAQsByCategory lib kb args
      else Inr (Failure (''Unknown tool: '' @ name)))"

text \<open>
  The \<^verbatim>\<open>tools\<close> array advertised upstream: each tool's name, its declared properties
  (all of type string) and those among them listed as \<^verbatim>\<open>required\<close>.
\<close>

record toolDescriptor =
  tool_name :: string
  tool_properties :: "string list"
  tool_required :: "string list"

definition tools :: "toolDescriptor list" where
  "tools =
     [\<lparr>tool_name = ''getEmployeeByName'', tool_properties = [''name''],
        tool_required = [''name'']\<rparr>,
      \<lparr>tool_name = ''getEmployeeByDesignation'', tool_properties = [''designation''],
        tool_required = [''designation'']\<rparr>,
      \<lparr>tool_name = ''getAllEmployees'', tool_properties = [], tool_required = []\<rparr>,
      \<lparr>tool_name = ''getCompanyInfo'', tool_properties = [], tool_required = []\<rparr>,
      \<lparr>tool_name = ''getServices'', tool_properties = [''serviceName''],
        tool_required = []\<rparr>,
      \<lparr>tool_name = ''searchFAQ'', tool_properties = [''query''],
        tool_required = [''query'']\<rparr>,
      \<lparr>tool_name = ''getFAQsByCategory'', tool_properties = [''category''],
        tool_required = [''category'']\<rparr>]"

fun is_JStr :: "json \<Rightarrow> bool" where
  "is_JStr (JStr s) = True"
| "is_JStr v = False"

text \<open>
  An argument value that satisfies the descriptor of the named tool: an object in which
  every required property is a string and every other declared property is a string or
  absent. A name with no descriptor constrains nothing but the object shape.
\<close>

definition satisfies :: "toolDescriptor \<Rightarrow> (string \<times> json) list \<Rightarrow> bool" where
  "satisfies t kvs =
     (list_all (\<lambda>k. case map_of kvs k of None \<Rightarrow> False | Some v \<Rightarrow> is_JStr v)
        (tool_required t) \<and>
      list_all (\<lambda>k. case map_of kvs k of None \<Rightarrow> True | Some v \<Rightarrow> is_JStr v)
        (tool_properties t))"

definition conforms :: "string \<Rightarrow> json \<Rightarrow> bool" where
  "conforms name args =
     (case args of
        JObj kvs \<Rightarrow> list_all (\<lambda>t. tool_name t \<noteq> name \<or> satisfies t kvs) tools
      | _ \<Rightarrow> False)"

section \<open>Relay session\<close>

datatype readyState = CONNECTING | OPEN | CLOSING | CLOSED

record relay =
  clientWs :: readyState
  openaiWs :: readyState

text \<open>
  What a handler sends: a text frame to the client, or an object handed to
  \<^verbatim>\<open>JSON.stringify\<close> and sent upstream.
\<close>

datatype action = ClientSend string | OpenaiSend json

definition response_create :: json where
  "response_create = JObj [(''type'', JStr ''response.create'')]"

text \<open>A property whose value is \<^verbatim>\<open>undefined\<close> is left out by \<^verbatim>\<open>JSON.stringify\<close>.\<close>

definition function_call_output :: "json option \<Rightarrow> string \<Rightarrow> json" where
  "function_call_output call_id out =
     JObj [(''type'', JStr ''conversation.item.create''),
           (''item'', JObj ([(''type'', JStr ''function_call_output'')] @
                           (case call_id of None \<Rightarrow> [] | Some c \<Rightarrow> [(''call_id'', c)]) @
                           [(''output'', JStr out)]))]"

text \<open>The text \<^verbatim>\<open>JSON.parse\<close> reads from its argument: a string as it is, any other value converted.\<close>

definition text_of :: "jsLib \<Rightarrow> json option \<Rightarrow> string" where
  "text_of lib v = (case v of Some (JStr s) \<Rightarrow> s | _ \<Rightarrow> ToString lib v)"

text \<open>
  \<^verbatim>\<open>executeTool(name, args)\<close> as the handler calls it, with whatever \<^verbatim>\<open>msg.name\<close> holds: a
  value that is not a string equals no \<^verbatim>\<open>case\<close> label and reaches \<^verbatim>\<open>default\<close>.
\<close>

definition dispatch :: "jsLib \<Rightarrow> knowledgeBase \<Rightarrow> json option \<Rightarrow> json \<Rightarrow> fault + toolResult" where
  "dispatch lib kb name args =
     (case name of
        Some (JStr n) \<Rightarrow> executeTool lib kb n args
      | _ \<Rightarrow> Inr (Failure (''Unknown tool: '' @ ToString lib name)))"

text \<open>
  The inner \<^verbatim>\<open>try\<close> of the upstream message handler, for a message \<open>msg\<close> whose type is
  \<^verbatim>\<open>response.function_call_arguments.done\<close>. Its \<^verbatim>\<open>catch\<close> logs the fault and sends nothing.
\<close>

definition handle_function_call :: "jsLib \<Rightarrow> knowledgeBase \<Rightarrow> (string \<times> json) list \<Rightarrow> action list" where
  "handle_function_call lib kb msg =
     (let call_id = map_of msg ''call_id'';
          name = map_of msg ''name'';
          argsString = map_of msg ''arguments''
      in case JSON_parse lib (text_of lib argsString) of
           None \<Rightarrow> []
         | Some args \<Rightarrow>
             (case dispatch lib kb name args of
                Inl e \<Rightarrow> []
              | Inr result \<Rightarrow>
                  [OpenaiSend (function_call_output call_id (JSON_stringify lib result)),
                   OpenaiSend response_create]))"

text \<open>
  \<^verbatim>\<open>openaiWs.on("message")\<close>: forward to the client first, then inspect. A payload that
  does not parse, or whose \<^verbatim>\<open>type\<close> cannot be read, ends in the outer \<^verbatim>\<open>catch\<close>; the
  branches for \<^verbatim>\<open>response.done\<close> and \<^verbatim>\<open>error\<close> only log.
\<close>

definition openai_on_message :: "jsLib \<Rightarrow> knowledgeBase \<Rightarrow> relay \<Rightarrow> string \<Rightarrow> action list" where
  "openai_on_message lib kb s responseString =
     (if clientWs s = OPEN then [ClientSend responseString] else []) @
     (case JSON_parse lib responseString of
        None \<Rightarrow> []
      | Some (JObj msg) \<Rightarrow>
          if map_of msg ''type'' = Some (JStr ''response.function_call_arguments.done'')
          then handle_function_call lib kb msg
          else []
      | Some v \<Rightarrow> [])"

text \<open>The objects sent upstream among a handler's actions, in order.\<close>

fun sent_upstream :: "action list \<Rightarrow> json list" where
  "sent_upstream [] = []"
| "sent_upstream (OpenaiSend j # as) = j # sent_upstream as"
| "sent_upstream (ClientSend t # as) = sent_upstream as"

text \<open>
  Connection events. The socket library sets the state of the socket an event is about
  (\<open>OPEN\<close> on open, \<open>CLOSED\<close> on close) and then runs the handler registered for it;
  \<^verbatim>\<open>close()\<close> on an open socket starts the closing handshake.
\<close>

datatype ws_event = OpenaiOpen | ClientClose | OpenaiClose

definition on_client_close :: "relay \<Rightarrow> relay" where
  "on_client_close s = (if openaiWs s = OPEN then s\<lparr>openaiWs := CLOSING\<rparr> else s)"

definition on_openai_close :: "relay \<Rightarrow> relay" where
  "on_openai_close s = (if clientWs s = OPEN then s\<lparr>clientWs := CLOSING\<rparr> else s)"

fun relay_event :: "relay \<Rightarrow> ws_event \<Rightarrow> relay" where
  "relay_event s OpenaiOpen = (if openaiWs s = CONNECTING then s\<lparr>openaiWs := OPEN\<rparr> else s)"
| "relay_event s ClientClose = on_client_close (s\<lparr>clientWs := CLOSED\<rparr>)"
| "relay_event s OpenaiClose = on_openai_close (s\<lparr>openaiWs := CLOSED\<rparr>)"

text \<open>\<^verbatim>\<open>handleRealtimeConnection\<close> starts with the client accepted and the upstream dialling.\<close>

definition handleRealtimeConnection :: relay where
  "handleRealtimeConnection = \<lparr>clientWs = OPEN, openaiWs = CONNECTING\<rparr>"

section \<open>Audio codec\<close>

type_synonym byte = "8 word"
type_synonym int16 = "16 word"

text \<open>
  Samples and times are real numbers here; the rounding of the engine's floating-point
  formats is not part of the model.
\<close>

text \<open>
  \<^verbatim>\<open>DataView.setInt16(offset, v, true)\<close> converts \<open>v\<close> to a 16-bit integer (drop the
  fraction towards zero, wrap modulo \<open>2 ^ 16\<close>) and stores it low byte first.
\<close>

definition js_trunc :: "real \<Rightarrow> int" where
  "js_trunc v = (if v < 0 then \<lceil>v\<rceil> else \<lfloor>v\<rfloor>)"

definition toInt16 :: "real \<Rightarrow> int16" where
  "toInt16 v = word_of_int (js_trunc v)"

definition setInt16 :: "int16 \<Rightarrow> byte list" where
  "setInt16 w = [ucast w, ucast (drop_bit 8 w)]"

text \<open>One turn of the loop of \<^verbatim>\<open>floatTo16BitPCM\<close>: clamp, scale, convert.\<close>

definition pcm16_sample :: "real \<Rightarrow> int16" where
  "pcm16_sample x =
     (let s = max (- 1) (min 1 x)
      in toInt16 (if s < 0 then s * 32768 else s * 32767))"

definition floatTo16BitPCM :: "real list \<Rightarrow> byte list" where
  "floatTo16BitPCM float32Array = concat (map (\<lambda>x. setInt16 (pcm16_sample x)) float32Array)"

text \<open>
  The byte buffer of \<^verbatim>\<open>playAudioChunk\<close>: zero-filled, of the payload's length rounded up
  to an even number, then the payload copied in from index 0.
\<close>

definition payload_bytes :: "byte list \<Rightarrow> byte list" where
  "payload_bytes binaryString =
     (let len = length binaryString;
          bytes = replicate (if len mod 2 = 0 then len else len + 1) (0 :: byte)
      in foldl (\<lambda>b i. b[i := binaryString ! i]) bytes [0..<len])"

text \<open>
  \<^verbatim>\<open>new Int16Array(buffer)\<close>: a \<^verbatim>\<open>RangeError\<close> when the byte length is odd, otherwise the
  samples read two bytes at a time, low byte first.
\<close>

fun int16_pairs :: "byte list \<Rightarrow> int16 list" where
  "int16_pairs (lo # hi # bs) = (push_bit 8 (ucast hi) OR ucast lo) # int16_pairs bs"
| "int16_pairs bs = []"

definition Int16Array :: "byte list \<Rightarrow> fault + int16 list" where
  "Int16Array buffer =
     (if length buffer mod 2 = 0 then Inr (int16_pairs buffer) else Inl RangeError)"

definition float_sample :: "int16 \<Rightarrow> real" where
  "float_sample w = real_of_int (sint w) / 32767"

section \<open>Playback scheduler\<close>

text \<open>
  A buffer source node of the audio engine: when it starts, how long it plays, and
  whether \<^verbatim>\<open>stop()\<close> was called on it.
\<close>

record source =
  src_start :: real
  src_duration :: real
  src_stopped :: bool

text \<open>
  The client's playback state: whether \<^verbatim>\<open>audioContextRef.current\<close> is set, the nodes created
  so far (a node is addressed by its position), the nodes held in
  \<^verbatim>\<open>audioQueueRef.current\<close>, and \<^verbatim>\<open>nextStartTimeRef.current\<close>.
\<close>

record playback =
  audioContext :: bool
  sources :: "source list"
  audioQueue :: "nat list"
  nextStartTime :: real

definition initial_playback :: playback where
  "initial_playback = \<lparr>audioContext = True, sources = [], audioQueue = [], nextStartTime = 0\<rparr>"

text \<open>
  \<^verbatim>\<open>playAudioChunk\<close> at engine clock \<open>currentTime\<close>. The payload is what \<^verbatim>\<open>atob\<close> returns
  (\<open>None\<close> when it throws). Every fault inside the \<^verbatim>\<open>try\<close>, also that of
  \<^verbatim>\<open>createBuffer\<close> on a length of zero, is caught and schedules nothing.
\<close>

definition playAudioChunk :: "real \<Rightarrow> byte list option \<Rightarrow> playback \<Rightarrow> playback" where
  "playAudioChunk currentTime payload st =
     (if \<not> audioContext st then st
      else case payload of
        None \<Rightarrow> st
      | Some binaryString \<Rightarrow>
          (case Int16Array (payload_bytes binaryString) of
             Inl e \<Rightarrow> st
           | Inr pcm16 \<Rightarrow>
               (let float32 = map float_sample pcm16
                in if length float32 = 0 then st
                   else
                     (let duration = real (length float32) / 24000;
                          startTime = max currentTime (nextStartTime st);
                          node = \<lparr>src_start = startTime, src_duration = duration,
                                   src_stopped = False\<rparr>
                      in st\<lparr>sources := sources st @ [node],
                            nextStartTime := startTime + duration,
                            audioQueue := audioQueue st @ [length (sources st)]\<rparr>))))"

definition stop_source :: "source list \<Rightarrow> nat \<Rightarrow> source list" where
  "stop_source srcs i = (if i < length srcs then srcs[i := (srcs ! i)\<lparr>src_stopped := True\<rparr>] else srcs)"

definition stopAudioPlayback :: "playback \<Rightarrow> playback" where
  "stopAudioPlayback st =
     (if audioContext st
      then st\<lparr>sources := foldl stop_source (sources st) (audioQueue st),
              audioQueue := [],
              nextStartTime := 0\<rparr>
      else st)"

text \<open>
  \<^verbatim>\<open>handleServerMessage\<close> on a parsed message of the given type, at the given engine clock;
  \<open>delta\<close> is the decoded audio of a \<^verbatim>\<open>response.audio.delta\<close>. The other cases change only
  the status line.
\<close>

definition handleServerMessage :: "real \<Rightarrow> string \<Rightarrow> byte list option \<Rightarrow> playback \<Rightarrow> playback" where
  "handleServerMessage currentTime mtype delta st =
     (if mtype = ''response.audio.delta'' then playAudioChunk currentTime delta st
      else if mtype = ''input_audio_buffer.speech_started'' then stopAudioPlayback st
      else st)"

text \<open>A run of server messages, each with the engine clock at its arrival.\<close>

fun run_messages :: "playback \<Rightarrow> (real \<times> string \<times> byte list option) list \<Rightarrow> playback" where
  "run_messages st [] = st"
| "run_messages st ((t, mtype, delta) # ms) = run_messages (handleServerMessage t mtype delta st) ms"

text \<open>A run of audio chunks alone, with no other message between them.\<close>

fun play_chunks :: "playback \<Rightarrow> (real \<times> byte list option) list \<Rightarrow> playback" where
  "play_chunks st [] = st"
| "play_chunks st ((t, payload) # cs) = play_chunks (playAudioChunk t payload st) cs"

section \<open>Properties of the playback state\<close>

text \<open>Each node of the list ends no later than the next one starts.\<close>

fun chained :: "source list \<Rightarrow> bool" where
  "chained (a # b # srcs) = (src_start a + src_duration a \<le> src_start b \<and> chained (b # srcs))"
| "chained srcs = True"

text \<open>
  The nodes created after the first \<open>k\<close> play one after the other, and the cursor stands at
  the end of the last of them.
\<close>

definition scheduled_from :: "nat \<Rightarrow> playback \<Rightarrow> bool" where
  "scheduled_from k st =
     (k \<le> length (sources st) \<and> chained (drop k (sources st)) \<and>
      (k < length (sources st) \<longrightarrow>
         nextStartTime st = src_start (last (sources st)) + src_duration (last (sources st))))"

text \<open>
  The audio context exists, every node not yet stopped is in the queue, and the queue
  holds only nodes that exist.
\<close>

definition queue_holds_playing :: "playback \<Rightarrow> bool" where
  "queue_holds_playing st =
     (audioContext st \<and>
      list_all (\<lambda>i. src_stopped (sources st ! i) \<or> i \<in> set (audioQueue st))
        [0..<length (sources st)] \<and>
      list_all (\<lambda>i. i < length (sources st)) (audioQueue st))"

section \<open>Sample data\<close>

text \<open>A small knowledge base, used to run the definitions on concrete inputs.\<close>

definition demo_kb :: knowledgeBase where
  "demo_kb =
     \<lparr>employees =
        [\<lparr>emp_name = ''John Smith'', emp_designation = ''CTO'',
           emp_email = ''john@sb.example'', emp_details = []\<rparr>,
         \<lparr>emp_name = ''Alice Johnson'', emp_designation = ''Full-Stack Engineer'',
           emp_email = ''alice@sb.example'', emp_details = []\<rparr>,
         \<lparr>emp_name = ''Rahim Khan'', emp_designation = ''Designer'',
           emp_email = ''rahim@sb.example'', emp_details = []\<rparr>],
      aboutData =
        \<lparr>company_name = ''StrategyByte'', description = ''A digital agency'',
          closing_statement = ''Talk to us'', services_intro = ''What we do'',
          services =
            [\<lparr>svc_title = ''Website Development'', svc_description = ''Sites that sell''\<rparr>,
             \<lparr>svc_title = ''SEO'', svc_description = ''Rank your website''\<rparr>]\<rparr>,
      faqData =
        [\<lparr>title_highlight = ''Marketing Agency'',
           faqs = [\<lparr>question = ''What does it cost?'', answer = ''It depends''\<rparr>]\<rparr>,
         \<lparr>title_highlight = ''Content Marketing'',
           faqs = [\<lparr>question = ''Do you write blogs?'', answer = ''Yes''\<rparr>]\<rparr>]\<rparr>"

text \<open>
  Two upstream frames that announce a completed function call, and the library functions
  on the texts involved: \<^verbatim>\<open>JSON.parse\<close> as the table of the texts it is applied to, a
  shortened \<^verbatim>\<open>JSON.stringify\<close>. Every sample text is ASCII, so the library's case
  mapping is never reached; the identity stands in its place.
\<close>

definition call_without_name :: string where
  \<open>call_without_name =
     ''{"type":"response.function_call_arguments.done","call_id":"call_1","name":"getEmployeeByName","arguments":"{}"}''\<close>

definition call_all_employees :: string where
  \<open>call_all_employees =
     ''{"type":"response.function_call_arguments.done","call_id":"call_2","name":"getAllEmployees","arguments":"{}"}''\<close>

definition demo_lib :: jsLib where
  "demo_lib =
     \<lparr>JSON_parse = map_of
        [(call_without_name,
          JObj [(''type'', JStr ''response.function_call_arguments.done''),
                (''call_id'', JStr ''call_1''),
                (''name'', JStr ''getEmployeeByName''),
                (''arguments'', JStr ''{}'')]),
         (call_all_employees,
          JObj [(''type'', JStr ''response.function_call_arguments.done''),
                (''call_id'', JStr ''call_2''),
                (''name'', JStr ''getAllEmployees''),
                (''arguments'', JStr ''{}'')]),
         (''{}'', JObj [])],
      JSON_stringify = (\<lambda>r. if success r then ''{success:true}'' else ''{success:false}''),
      ToString = (\<lambda>v. ''undefined''),
      unicode_toLowerCase = (\<lambda>s. s)\<rparr>"

section \<open>Matching and argument reading\<close>

lemma str_includes_sublist: "str_includes s t \<longleftrightarrow> sublist t s"
  by (induction s) (auto simp: sublist_Cons_right)

lemma str_includes_Nil: "str_includes s []"
  by (cases s) simp_all

lemma toLowerCase_Nil: "toLowerCase lib [] = []"
  by (simp add: toLowerCase_def is_ascii_def)

lemma is_JStr_iff: "is_JStr v \<longleftrightarrow> (\<exists>s. v = JStr s)"
  by (cases v) simp_all

lemma string_arg_Inr_iff:
  "string_arg args key = Inr s \<longleftrightarrow> getprop args key = Inr (Some (JStr s))"
  by (auto simp: string_arg_def split: sum.splits option.splits json.splits)

lemma string_arg_undefined: "getprop args k = Inr None \<Longrightarrow> string_arg args k = Inl TypeError"
  by (simp add: string_arg_def)


section \<open>What each lookup returns\<close>

lemma getEmployeeByName_string:
  "string_arg args ''name'' = Inr s \<Longrightarrow>
   getEmployeeByName lib kb args =
     (let found = filter (\<lambda>e. sublist (toLowerCase lib s) (toLowerCase lib (emp_name e))) (employees kb)
      in if found = [] then Inr (Failure (''No employee found matching '' @ quoted s))
         else Inr (EmployeesFound found))"
  by (simp add: getEmployeeByName_def str_includes_sublist Let_def)

lemma getEmployeeByDesignation_string:
  "string_arg args ''designation'' = Inr s \<Longrightarrow>
   getEmployeeByDesignation lib kb args =
     (let found = filter (\<lambda>e. sublist (toLowerCase lib s) (toLowerCase lib (emp_designation e)))
                    (employees kb)
      in if found = [] then Inr (Failure (''No employees found with designation '' @ quoted s))
         else Inr (EmployeesByDesignation (length found) found))"
  by (simp add: getEmployeeByDesignation_def str_includes_sublist Let_def)

lemma getServices_string:
  assumes "string_arg args ''serviceName'' = Inr s" and "s \<noteq> []"
  shows "getServices lib kb args =
     (let found = filter (\<lambda>v. sublist (toLowerCase lib s) (toLowerCase lib (svc_title v)) \<or>
                               sublist (toLowerCase lib s) (toLowerCase lib (svc_description v)))
                    (services (aboutData kb))
      in if found = [] then Inr (Failure (''No service found matching '' @ quoted s))
         else Inr (ServicesFound found))"
proof -
  have "getprop args ''serviceName'' = Inr (Some (JStr s))"
    using assms(1) by (simp add: string_arg_Inr_iff)
  then show ?thesis
    using assms by (simp add: getServices_def str_includes_sublist Let_def)
qed

lemma getServices_falsy:
  "getprop args ''serviceName'' = Inr v \<Longrightarrow> \<not> truthy v \<Longrightarrow>
   getServices lib kb args = Inr (ServicesAll (services_intro (aboutData kb)) (services (aboutData kb)))"
  by (simp add: getServices_def)

lemma searchFAQ_string:
  "string_arg args ''query'' = Inr s \<Longrightarrow>
   searchFAQ lib kb args =
     (let results = concat (map (\<lambda>c. map (\<lambda>f. (title_highlight c, question f, answer f))
                       (filter (\<lambda>f. sublist (toLowerCase lib s) (toLowerCase lib (question f)) \<or>
                                      sublist (toLowerCase lib s) (toLowerCase lib (answer f))) (faqs c)))
                     (faqData kb))
      in if results = [] then Inr (Failure (''No FAQs found matching '' @ quoted s))
         else Inr (FAQResults (length results) results))"
  by (simp add: searchFAQ_def str_includes_sublist Let_def)


lemma getFAQsByCategory_none:
  assumes "string_arg args ''category'' = Inr s"
    and "\<forall>d\<in>set (faqData kb). \<not> sublist (toLowerCase lib s) (toLowerCase lib (title_highlight d))"
  shows "getFAQsByCategory lib kb args =
           Inr (Failure (''Category not found. Available: '' @ join '', '' (map title_highlight (faqData kb))))"
proof -
  have "find (\<lambda>cat. str_includes (toLowerCase lib (title_highlight cat)) (toLowerCase lib s)) (faqData kb) = None"
    using assms(2) by (simp add: find_None_iff str_includes_sublist)
  then show ?thesis using assms(1) by (simp add: getFAQsByCategory_def)
qed

lemma getFAQsByCategory_returns:
  "string_arg args ''category'' = Inr s \<Longrightarrow> \<exists>r. getFAQsByCategory lib kb args = Inr r"
  by (simp add: getFAQsByCategory_def split: option.split)

section \<open>When the dispatcher returns and when it throws\<close>

lemma conforms_object: "conforms name args \<Longrightarrow> \<exists>kvs. args = JObj kvs"
  by (cases args) (simp_all add: conforms_def)

lemma conforms_required:
  assumes "conforms name args" and "t \<in> set tools" and "tool_name t = name"
    and "k \<in> set (tool_required t)"
  shows "\<exists>s. string_arg args k = Inr s"
proof -
  obtain kvs where kvs: "args = JObj kvs"
    using assms(1) conforms_object by blast
  have "satisfies t kvs"
    using assms(1-3) by (auto simp: conforms_def kvs list_all_iff)
  then have "case map_of kvs k of None \<Rightarrow> False | Some v \<Rightarrow> is_JStr v"
    using assms(4) by (simp add: satisfies_def list_all_iff)
  then obtain s where "map_of kvs k = Some (JStr s)"
    by (auto simp: is_JStr_iff split: option.splits)
  then show ?thesis
    by (simp add: string_arg_def kvs)
qed

lemma conforms_declared:
  assumes "conforms name args" and "t \<in> set tools" and "tool_name t = name"
    and "k \<in> set (tool_properties t)"
  shows "getprop args k = Inr None \<or> (\<exists>s. getprop args k = Inr (Some (JStr s)))"
proof -
  obtain kvs where kvs: "args = JObj kvs"
    using assms(1) conforms_object by blast
  have "satisfies t kvs"
    using assms(1-3) by (auto simp: conforms_def kvs list_all_iff)
  then have "case map_of kvs k of None \<Rightarrow> True | Some v \<Rightarrow> is_JStr v"
    using assms(4) by (simp add: satisfies_def list_all_iff)
  then show ?thesis
    by (auto simp: is_JStr_iff kvs split: option.splits)
qed

lemma getServices_returns:
  assumes "getprop args ''serviceName'' = Inr None \<or>
           (\<exists>s. getprop args ''serviceName'' = Inr (Some (JStr s)))"
  shows "\<exists>r. getServices lib kb args = Inr r"
  using assms by (auto simp: getServices_def string_arg_def Let_def)

lemma executeTool_conforms:
  assumes "conforms name args"
  shows "\<exists>r. executeTool lib kb name args = Inr r"
proof -
  have req: "\<exists>s. string_arg args k = Inr s"
    if "\<lparr>tool_name = name, tool_properties = [k], tool_required = [k]\<rparr> \<in> set tools" for k
    using conforms_required [OF assms that] by simp
  consider (n) "name = ''getEmployeeByName''" | (d) "name = ''getEmployeeByDesignation''"
    | (a) "name = ''getAllEmployees''" | (i) "name = ''getCompanyInfo''"
    | (v) "name = ''getServices''" | (q) "name = ''searchFAQ''"
    | (c) "name = ''getFAQsByCategory''" | (u) "name \<notin> tool_name ` set tools"
    by (auto simp: tools_def)
  then show ?thesis
  proof cases
    case n
    then obtain s where "string_arg args ''name'' = Inr s"
      using req [of "''name''"] by (auto simp: tools_def)
    then show ?thesis
      by (simp add: n executeTool_def getEmployeeByName_string Let_def)
  next
    case d
    then obtain s where "string_arg args ''designation'' = Inr s"
      using req [of "''designation''"] by (auto simp: tools_def)
    then show ?thesis
      by (simp add: d executeTool_def getEmployeeByDesignation_string Let_def)
  next
    case a
    then show ?thesis by (simp add: executeTool_def)
  next
    case i
    then show ?thesis by (simp add: executeTool_def)
  next
    case v
    have "getprop args ''serviceName'' = Inr None \<or>
           (\<exists>s. getprop args ''serviceName'' = Inr (Some (JStr s)))"
      using conforms_declared [OF assms, of "\<lparr>tool_name = name,
        tool_properties = [''serviceName''], tool_required = []\<rparr>" "''serviceName''"] v
      by (simp add: tools_def)
    then show ?thesis
      using getServices_returns [where args = args and kb = kb and lib = lib] by (simp add: v executeTool_def)
  next
    case q
    then obtain s where "string_arg args ''query'' = Inr s"
      using req [of "''query''"] by (auto simp: tools_def)
    then show ?thesis
      by (simp add: q executeTool_def searchFAQ_string Let_def)
  next
    case c
    then obtain s where "string_arg args ''category'' = Inr s"
      using req [of "''category''"] by (auto simp: tools_def)
    then show ?thesis
      using getFAQsByCategory_returns [where args = args and s = s and kb = kb and lib = lib] by (simp add: c executeTool_def)
  next
    case u
    then show ?thesis by (simp add: executeTool_def tools_def)
  qed
qed

lemma executeTool_unknown:
  assumes "name \<notin> tool_name ` set tools"
  shows "executeTool lib kb name args = Inr (Failure (''Unknown tool: '' @ name))"
  using assms by (simp add: executeTool_def tools_def)

lemma executeTool_missing_required:
  assumes "t \<in> set tools" and "k \<in> set (tool_required t)" and "getprop args k = Inr None"
  shows "executeTool lib kb (tool_name t) args = Inl TypeError"
proof -
  have "(tool_name t, k) \<in> {(''getEmployeeByName'', ''name''),
      (''getEmployeeByDesignation'', ''designation''), (''searchFAQ'', ''query''),
      (''getFAQsByCategory'', ''category'')}"
    using assms(1,2) by (auto simp: tools_def)
  then consider "tool_name t = ''getEmployeeByName'' \<and> k = ''name''"
    | "tool_name t = ''getEmployeeByDesignation'' \<and> k = ''designation''"
    | "tool_name t = ''searchFAQ'' \<and> k = ''query''"
    | "tool_name t = ''getFAQsByCategory'' \<and> k = ''category''"
    by auto
  then show ?thesis
  proof cases
    case 1
    then show ?thesis
      using string_arg_undefined [OF assms(3)] by (simp add: executeTool_def getEmployeeByName_def)
  next
    case 2
    then show ?thesis
      using string_arg_undefined [OF assms(3)]
      by (simp add: executeTool_def getEmployeeByDesignation_def)
  next
    case 3
    then show ?thesis
      using string_arg_undefined [OF assms(3)] by (simp add: executeTool_def searchFAQ_def)
  next
    case 4
    then show ?thesis
      using string_arg_undefined [OF assms(3)] by (simp add: executeTool_def getFAQsByCategory_def)
  qed
qed

section \<open>Claims about the tool dispatcher\<close>

text \<open>
  C10. \<^verbatim>\<open>getEmployeeByName\<close> called with the empty string as \<^verbatim>\<open>name\<close>: the empty text occurs
  in every name, so for a non-empty employee list the result is a success that carries every
  employee, never the no-match failure.
\<close>

theorem getEmployeeByName_empty_term:
  assumes "getprop args ''name'' = Inr (Some (JStr ''''))" and "employees kb \<noteq> []"
  shows "executeTool lib kb ''getEmployeeByName'' args = Inr (EmployeesFound (employees kb)) \<and>
         success (EmployeesFound (employees kb))"
proof -
  have "string_arg args ''name'' = Inr ''''"
    using assms(1) by (simp add: string_arg_Inr_iff)
  then have "getEmployeeByName lib kb args = Inr (EmployeesFound (employees kb))"
    using assms(2) by (simp add: getEmployeeByName_string toLowerCase_Nil)
  then show ?thesis
    by (simp add: executeTool_def)
qed

theorem getEmployeeByName_empty_term_witness:
  "getprop (JObj [(''name'', JStr '''')]) ''name'' = Inr (Some (JStr '''')) \<and>
   employees demo_kb \<noteq> [] \<and>
   executeTool demo_lib demo_kb ''getEmployeeByName'' (JObj [(''name'', JStr '''')]) =
     Inr (EmployeesFound (employees demo_kb))"
proof -
  have a: "getprop (JObj [(''name'', JStr '''')]) ''name'' = Inr (Some (JStr ''''))"
    by simp
  have b: "employees demo_kb \<noteq> []"
    by (simp add: demo_kb_def)
  show ?thesis
    using a b getEmployeeByName_empty_term [OF a b] by simp
qed

text \<open>
  C8. The dispatcher has no case for a booking tool: the name \<^verbatim>\<open>createBooking\<close>, with
  whatever arguments, reaches \<^verbatim>\<open>default\<close> and yields the unknown-tool failure; nothing is
  stored and no identifier is returned.
\<close>

theorem createBooking_is_unknown:
  "executeTool lib kb ''createBooking'' args = Inr (Failure ''Unknown tool: createBooking'')"
  by (simp add: executeTool_def)

text \<open>
  C2, as stated, fails: \<^verbatim>\<open>getEmployeeByName\<close> called with an object that has no \<^verbatim>\<open>name\<close>
  throws a \<^verbatim>\<open>TypeError\<close> to the caller.
\<close>

theorem missing_name_throws:
  "executeTool demo_lib demo_kb ''getEmployeeByName'' (JObj []) = Inl TypeError"
  by (simp add: executeTool_def getEmployeeByName_def string_arg_def)

text \<open>
  C2, amended. For every tool name and every argument object that satisfies the tool's
  descriptor, the dispatcher returns a result; an unknown tool name and a lookup that
  matches no record each yield a failure result; a required argument that is missing makes
  the dispatcher throw a \<^verbatim>\<open>TypeError\<close>.
\<close>

theorem executeTool_result_or_fault:
  "(conforms name args \<longrightarrow> (\<exists>r. executeTool lib kb name args = Inr r)) \<and>
   (name \<notin> tool_name ` set tools \<longrightarrow>
      executeTool lib kb name args = Inr (Failure (''Unknown tool: '' @ name))) \<and>
   (string_arg args ''name'' = Inr s \<and>
    (\<forall>e\<in>set (employees kb). \<not> sublist (toLowerCase lib s) (toLowerCase lib (emp_name e))) \<longrightarrow>
      executeTool lib kb ''getEmployeeByName'' args =
        Inr (Failure (''No employee found matching '' @ quoted s))) \<and>
   (string_arg args ''designation'' = Inr s \<and>
    (\<forall>e\<in>set (employees kb). \<not> sublist (toLowerCase lib s) (toLowerCase lib (emp_designation e))) \<longrightarrow>
      executeTool lib kb ''getEmployeeByDesignation'' args =
        Inr (Failure (''No employees found with designation '' @ quoted s))) \<and>
   (string_arg args ''serviceName'' = Inr s \<and> s \<noteq> [] \<and>
    (\<forall>v\<in>set (services (aboutData kb)).
        \<not> sublist (toLowerCase lib s) (toLowerCase lib (svc_title v)) \<and>
        \<not> sublist (toLowerCase lib s) (toLowerCase lib (svc_description v))) \<longrightarrow>
      executeTool lib kb ''getServices'' args =
        Inr (Failure (''No service found matching '' @ quoted s))) \<and>
   (string_arg args ''query'' = Inr s \<and>
    (\<forall>c\<in>set (faqData kb). \<forall>f\<in>set (faqs c).
        \<not> sublist (toLowerCase lib s) (toLowerCase lib (question f)) \<and>
        \<not> sublist (toLowerCase lib s) (toLowerCase lib (answer f))) \<longrightarrow>
      executeTool lib kb ''searchFAQ'' args =
        Inr (Failure (''No FAQs found matching '' @ quoted s))) \<and>
   (string_arg args ''category'' = Inr s \<and>
    (\<forall>c\<in>set (faqData kb). \<not> sublist (toLowerCase lib s) (toLowerCase lib (title_highlight c))) \<longrightarrow>
      executeTool lib kb ''getFAQsByCategory'' args =
        Inr (Failure (''Category not found. Available: '' @
                      join '', '' (map title_highlight (faqData kb))))) \<and>
   (\<forall>t\<in>set tools. \<forall>k\<in>set (tool_required t).
      getprop args k = Inr None \<longrightarrow> executeTool lib kb (tool_name t) args = Inl TypeError)"
proof (intro conjI impI ballI)
  show "\<exists>r. executeTool lib kb name args = Inr r" if "conforms name args"
    using that by (rule executeTool_conforms)
  show "executeTool lib kb name args = Inr (Failure (''Unknown tool: '' @ name))"
    if "name \<notin> tool_name ` set tools"
    using that by (rule executeTool_unknown)
  show "executeTool lib kb ''getEmployeeByName'' args =
        Inr (Failure (''No employee found matching '' @ quoted s))"
    if "string_arg args ''name'' = Inr s \<and>
        (\<forall>e\<in>set (employees kb). \<not> sublist (toLowerCase lib s) (toLowerCase lib (emp_name e)))"
    using that by (simp add: executeTool_def getEmployeeByName_string filter_empty_conv)
  show "executeTool lib kb ''getEmployeeByDesignation'' args =
        Inr (Failure (''No employees found with designation '' @ quoted s))"
    if "string_arg args ''designation'' = Inr s \<and>
        (\<forall>e\<in>set (employees kb). \<not> sublist (toLowerCase lib s) (toLowerCase lib (emp_designation e)))"
    using that by (simp add: executeTool_def getEmployeeByDesignation_string filter_empty_conv)
  show "executeTool lib kb ''getServices'' args =
        Inr (Failure (''No service found matching '' @ quoted s))"
    if "string_arg args ''serviceName'' = Inr s \<and> s \<noteq> [] \<and>
        (\<forall>v\<in>set (services (aboutData kb)).
            \<not> sublist (toLowerCase lib s) (toLowerCase lib (svc_title v)) \<and>
            \<not> sublist (toLowerCase lib s) (toLowerCase lib (svc_description v)))"
    using that by (simp add: executeTool_def getServices_string filter_empty_conv)
  show "executeTool lib kb ''searchFAQ'' args = Inr (Failure (''No FAQs found matching '' @ quoted s))"
    if "string_arg args ''query'' = Inr s \<and>
        (\<forall>c\<in>set (faqData kb). \<forall>f\<in>set (faqs c).
            \<not> sublist (toLowerCase lib s) (toLowerCase lib (question f)) \<and>
            \<not> sublist (toLowerCase lib s) (toLowerCase lib (answer f)))"
    using that by (simp add: executeTool_def searchFAQ_string filter_empty_conv)
  show "executeTool lib kb ''getFAQsByCategory'' args =
        Inr (Failure (''Category not found. Available: '' @
                      join '', '' (map title_highlight (faqData kb))))"
    if "string_arg args ''category'' = Inr s \<and>
        (\<forall>c\<in>set (faqData kb). \<not> sublist (toLowerCase lib s) (toLowerCase lib (title_highlight c)))"
    using that by (simp add: executeTool_def getFAQsByCategory_none)
  show "executeTool lib kb (tool_name t) args = Inl TypeError"
    if "t \<in> set tools" "k \<in> set (tool_required t)" "getprop args k = Inr None" for t k
    using that by (rule executeTool_missing_required)
qed

theorem executeTool_result_or_fault_witness:
  "conforms ''getEmployeeByName'' (JObj [(''name'', JStr ''zed'')]) \<and>
   executeTool demo_lib demo_kb ''getEmployeeByName'' (JObj [(''name'', JStr ''zed'')]) =
     Inr (Failure (''No employee found matching '' @ quoted ''zed'')) \<and>
   ''sendFax'' \<notin> tool_name ` set tools \<and>
   executeTool demo_lib demo_kb ''sendFax'' (JObj [(''name'', JStr ''zed'')]) =
     Inr (Failure ''Unknown tool: sendFax'') \<and>
   getprop (JObj [(''name'', JStr ''zed'')]) ''query'' = Inr None \<and>
   executeTool demo_lib demo_kb ''searchFAQ'' (JObj [(''name'', JStr ''zed'')]) = Inl TypeError"
proof -
  let ?args = "JObj [(''name'', JStr ''zed'')]"
  let ?t = "\<lparr>tool_name = ''searchFAQ'', tool_properties = [''query''],
             tool_required = [''query'']\<rparr>"
  have c: "conforms ''getEmployeeByName'' ?args"
    by (simp add: conforms_def tools_def satisfies_def)
  have a: "string_arg ?args ''name'' = Inr ''zed''"
    by (simp add: string_arg_def)
  have z: "\<forall>e\<in>set (employees demo_kb). \<not> sublist (toLowerCase demo_lib ''zed'') (toLowerCase demo_lib (emp_name e))"
    unfolding str_includes_sublist [symmetric]
    by (simp add: demo_kb_def toLowerCase_def is_ascii_def lower_char_def)
  have u: "''sendFax'' \<notin> tool_name ` set tools"
    by (simp add: tools_def)
  have t: "?t \<in> set tools"
    by (simp add: tools_def)
  have k: "''query'' \<in> set (tool_required ?t)"
    by simp
  have g: "getprop ?args ''query'' = Inr None"
    by simp
  note w1 = executeTool_result_or_fault [where name = "''getEmployeeByName''" and args = ?args
      and kb = demo_kb and s = "''zed''" and lib = demo_lib]
  note w2 = executeTool_result_or_fault [where name = "''sendFax''" and args = ?args
      and kb = demo_kb and s = "''zed''" and lib = demo_lib]
  have 1: "executeTool demo_lib demo_kb ''getEmployeeByName'' ?args =
     Inr (Failure (''No employee found matching '' @ quoted ''zed''))"
    by (rule w1 [THEN conjunct2, THEN conjunct2, THEN conjunct1, THEN mp, OF conjI [OF a z]])
  have "executeTool demo_lib demo_kb ''sendFax'' ?args = Inr (Failure (''Unknown tool: '' @ ''sendFax''))"
    by (rule w2 [THEN conjunct2, THEN conjunct1, THEN mp, OF u])
  then have 2: "executeTool demo_lib demo_kb ''sendFax'' ?args = Inr (Failure ''Unknown tool: sendFax'')"
    by simp
  have "\<forall>t\<in>set tools. \<forall>k\<in>set (tool_required t).
      getprop ?args k = Inr None \<longrightarrow> executeTool demo_lib demo_kb (tool_name t) ?args = Inl TypeError"
    by (rule w1 [THEN conjunct2, THEN conjunct2, THEN conjunct2, THEN conjunct2, THEN conjunct2,
          THEN conjunct2, THEN conjunct2])
  from this [rule_format, OF t k g]
  have 3: "executeTool demo_lib demo_kb ''searchFAQ'' ?args = Inl TypeError"
    by simp
  show ?thesis
    by (intro conjI c 1 u 2 g 3)
qed




section \<open>Claims about the relay session\<close>

lemma sent_upstream_append: "sent_upstream (xs @ ys) = sent_upstream xs @ sent_upstream ys"
  by (induction xs rule: sent_upstream.induct) simp_all

text \<open>
  C1, as stated, fails: a completed function call for \<^verbatim>\<open>getEmployeeByName\<close> whose
  arguments are \<^verbatim>\<open>{}\<close> makes the dispatcher throw; the handler's \<^verbatim>\<open>catch\<close> logs the fault,
  and the frame is forwarded to the client but nothing is sent upstream.
\<close>

theorem missing_argument_gets_no_reply:
  "JSON_parse demo_lib call_without_name =
     Some (JObj [(''type'', JStr ''response.function_call_arguments.done''),
                 (''call_id'', JStr ''call_1''),
                 (''name'', JStr ''getEmployeeByName''),
                 (''arguments'', JStr ''{}'')]) \<and>
   openai_on_message demo_lib demo_kb \<lparr>clientWs = OPEN, openaiWs = OPEN\<rparr> call_without_name =
     [ClientSend call_without_name]"
  by (simp add: openai_on_message_def handle_function_call_def demo_lib_def text_of_def
      dispatch_def executeTool_def getEmployeeByName_def string_arg_def call_without_name_def
      call_all_employees_def)

text \<open>
  C1, amended. For an upstream message of type \<^verbatim>\<open>response.function_call_arguments.done\<close>
  whose arguments parse and for which the dispatcher returns a result, be it a success or a
  failure, the relay sends upstream exactly one \<^verbatim>\<open>conversation.item.create\<close>, whose item is
  a \<^verbatim>\<open>function_call_output\<close> with the message's \<^verbatim>\<open>call_id\<close> and the serialized result as
  \<^verbatim>\<open>output\<close>, and right after it exactly one \<^verbatim>\<open>response.create\<close>. When the arguments do
  not parse or the dispatcher throws, it sends nothing upstream.
\<close>

theorem function_call_reply:
  assumes "JSON_parse lib data = Some (JObj msg)"
    and "map_of msg ''type'' = Some (JStr ''response.function_call_arguments.done'')"
  shows "(JSON_parse lib (text_of lib (map_of msg ''arguments'')) = Some args \<and>
          dispatch lib kb (map_of msg ''name'') args = Inr result \<longrightarrow>
            sent_upstream (openai_on_message lib kb s data) =
              [function_call_output (map_of msg ''call_id'') (JSON_stringify lib result),
               response_create]) \<and>
         (JSON_parse lib (text_of lib (map_of msg ''arguments'')) = None \<or>
          (JSON_parse lib (text_of lib (map_of msg ''arguments'')) = Some args \<and>
           dispatch lib kb (map_of msg ''name'') args = Inl e) \<longrightarrow>
            sent_upstream (openai_on_message lib kb s data) = []) \<and>
         (\<exists>item. getprop (function_call_output (map_of msg ''call_id'') out) ''item'' =
                    Inr (Some item) \<and>
                 getprop item ''type'' = Inr (Some (JStr ''function_call_output'')) \<and>
                 getprop item ''call_id'' = Inr (map_of msg ''call_id'') \<and>
                 getprop item ''output'' = Inr (Some (JStr out)))"
proof (intro conjI impI)
  have up: "sent_upstream (openai_on_message lib kb s data) =
            sent_upstream (handle_function_call lib kb msg)"
    using assms by (simp add: openai_on_message_def sent_upstream_append)
  show "sent_upstream (openai_on_message lib kb s data) =
          [function_call_output (map_of msg ''call_id'') (JSON_stringify lib result),
           response_create]"
    if "JSON_parse lib (text_of lib (map_of msg ''arguments'')) = Some args \<and>
        dispatch lib kb (map_of msg ''name'') args = Inr result"
    using that by (simp add: up handle_function_call_def)
  show "sent_upstream (openai_on_message lib kb s data) = []"
    if "JSON_parse lib (text_of lib (map_of msg ''arguments'')) = None \<or>
        (JSON_parse lib (text_of lib (map_of msg ''arguments'')) = Some args \<and>
         dispatch lib kb (map_of msg ''name'') args = Inl e)"
    using that by (auto simp: up handle_function_call_def)
  show "\<exists>item. getprop (function_call_output (map_of msg ''call_id'') out) ''item'' =
                    Inr (Some item) \<and>
                 getprop item ''type'' = Inr (Some (JStr ''function_call_output'')) \<and>
                 getprop item ''call_id'' = Inr (map_of msg ''call_id'') \<and>
                 getprop item ''output'' = Inr (Some (JStr out))"
    by (cases "map_of msg ''call_id''") (simp_all add: function_call_output_def)
qed

theorem function_call_reply_witness:
  "sent_upstream (openai_on_message demo_lib demo_kb \<lparr>clientWs = OPEN, openaiWs = OPEN\<rparr>
      call_all_employees) =
     [function_call_output (Some (JStr ''call_2'')) ''{success:true}'', response_create] \<and>
   sent_upstream (openai_on_message demo_lib demo_kb \<lparr>clientWs = OPEN, openaiWs = OPEN\<rparr>
      call_without_name) = []"
proof -
  let ?m1 = "[(''type'', JStr ''response.function_call_arguments.done''),
              (''call_id'', JStr ''call_2''),
              (''name'', JStr ''getAllEmployees''),
              (''arguments'', JStr ''{}'')]"
  let ?m2 = "[(''type'', JStr ''response.function_call_arguments.done''),
              (''call_id'', JStr ''call_1''),
              (''name'', JStr ''getEmployeeByName''),
              (''arguments'', JStr ''{}'')]"
  let ?s = "\<lparr>clientWs = OPEN, openaiWs = OPEN\<rparr>"
  have p1: "JSON_parse demo_lib call_all_employees = Some (JObj ?m1)"
    by (simp add: demo_lib_def call_all_employees_def call_without_name_def)
  have p2: "JSON_parse demo_lib call_without_name = Some (JObj ?m2)"
    by (simp add: demo_lib_def call_all_employees_def call_without_name_def)
  have t1: "map_of ?m1 ''type'' = Some (JStr ''response.function_call_arguments.done'')"
    by simp
  have t2: "map_of ?m2 ''type'' = Some (JStr ''response.function_call_arguments.done'')"
    by simp
  have a1: "JSON_parse demo_lib (text_of demo_lib (map_of ?m1 ''arguments'')) = Some (JObj [])"
    by (simp add: demo_lib_def text_of_def call_all_employees_def call_without_name_def)
  have a2: "JSON_parse demo_lib (text_of demo_lib (map_of ?m2 ''arguments'')) = Some (JObj [])"
    by (simp add: demo_lib_def text_of_def call_all_employees_def call_without_name_def)
  have d1: "dispatch demo_lib demo_kb (map_of ?m1 ''name'') (JObj []) = Inr (getAllEmployees demo_kb)"
    by (simp add: dispatch_def executeTool_def)
  have d2: "dispatch demo_lib demo_kb (map_of ?m2 ''name'') (JObj []) = Inl TypeError"
    by (simp add: dispatch_def executeTool_def getEmployeeByName_def string_arg_def)
  note w1 = function_call_reply [OF p1 t1, of "JObj []" demo_kb "getAllEmployees demo_kb" ?s]
  note w2 = function_call_reply [OF p2 t2, of "JObj []" demo_kb _ ?s TypeError]
  have "sent_upstream (openai_on_message demo_lib demo_kb ?s call_all_employees) =
          [function_call_output (map_of ?m1 ''call_id'')
             (JSON_stringify demo_lib (getAllEmployees demo_kb)), response_create]"
    by (rule w1 [THEN conjunct1, THEN mp, OF conjI [OF a1 d1]])
  then have 1: "sent_upstream (openai_on_message demo_lib demo_kb ?s call_all_employees) =
     [function_call_output (Some (JStr ''call_2'')) ''{success:true}'', response_create]"
    by (simp add: demo_lib_def getAllEmployees_def)
  have 2: "sent_upstream (openai_on_message demo_lib demo_kb ?s call_without_name) = []"
    by (rule w2 [THEN conjunct2, THEN conjunct1, THEN mp, OF disjI2 [OF conjI [OF a2 d2]]])
  show ?thesis
    by (intro conjI 1 2)
qed

text \<open>With both sockets open, the close of either one starts the close of the other.\<close>

lemma cascade_when_both_open:
  assumes "clientWs s = OPEN" and "openaiWs s = OPEN"
  shows "openaiWs (relay_event s ClientClose) = CLOSING \<and> clientWs (relay_event s ClientClose) = CLOSED"
    and "clientWs (relay_event s OpenaiClose) = CLOSING \<and> openaiWs (relay_event s OpenaiClose) = CLOSED"
  using assms by (simp_all add: on_client_close_def on_openai_close_def)

text \<open>
  C7. The client closes while the upstream connection is still being dialled, and the dial
  then succeeds: the close handler finds the upstream socket not yet open and leaves it
  alone, so the session ends with the client closed and the upstream open.
\<close>

theorem client_close_while_dialling:
  "foldl relay_event handleRealtimeConnection [ClientClose, OpenaiOpen] =
     \<lparr>clientWs = CLOSED, openaiWs = OPEN\<rparr>"
  by (simp add: handleRealtimeConnection_def on_client_close_def)

section \<open>Claims about the audio codec\<close>

lemma sint_word_of_int_16:
  "- 32768 \<le> n \<Longrightarrow> n < 32768 \<Longrightarrow> sint (word_of_int n :: 16 word) = n"
  by (simp add: sint_sbintrunc' signed_take_bit_int_eq_self)

lemma pcm16_sample_neg:
  assumes "- 1 \<le> x" and "x < 0"
  shows "sint (pcm16_sample x) = \<lceil>x * 32768\<rceil>"
proof -
  have "- 32768 \<le> x * 32768" and "x * 32768 < 0"
    using assms by simp_all
  then have "- 32768 \<le> \<lceil>x * 32768\<rceil>" and "\<lceil>x * 32768\<rceil> < 32768"
    by (simp_all add: le_ceiling_iff ceiling_less_iff)
  then have "sint (word_of_int \<lceil>x * 32768\<rceil> :: 16 word) = \<lceil>x * 32768\<rceil>"
    by (rule sint_word_of_int_16)
  then show ?thesis
    using assms by (simp add: pcm16_sample_def toInt16_def js_trunc_def Let_def min_def max_def)
qed

lemma pcm16_sample_nonneg:
  assumes "0 \<le> x" and "x \<le> 1"
  shows "sint (pcm16_sample x) = \<lfloor>x * 32767\<rfloor>"
proof -
  have "0 \<le> x * 32767" and "x * 32767 \<le> 32767"
    using assms by simp_all
  then have "- 32768 \<le> \<lfloor>x * 32767\<rfloor>" and "\<lfloor>x * 32767\<rfloor> < 32768"
    by (simp_all add: le_floor_iff floor_less_iff)
  then have "sint (word_of_int \<lfloor>x * 32767\<rfloor> :: 16 word) = \<lfloor>x * 32767\<rfloor>"
    by (rule sint_word_of_int_16)
  then show ?thesis
    using assms by (simp add: pcm16_sample_def toInt16_def js_trunc_def Let_def min_def max_def)
qed

lemma pcm16_sample_clamped: "pcm16_sample x = pcm16_sample (max (- 1) (min 1 x))"
  by (simp add: pcm16_sample_def Let_def)

lemma roundtrip_neg:
  assumes "- 1 \<le> x" and "x < 0"
  shows "\<bar>float_sample (pcm16_sample x) - x\<bar> \<le> 1 / 32767"
proof -
  define n where "n = \<lceil>x * 32768\<rceil>"
  have up: "x * 32768 \<le> real_of_int n" and lo: "real_of_int n < x * 32768 + 1"
    unfolding n_def by linarith+
  have e: "float_sample (pcm16_sample x) = real_of_int n / 32767"
    using assms by (simp add: float_sample_def pcm16_sample_neg n_def)
  have a: "real_of_int n / 32767 - x \<le> 1 / 32767"
    using lo assms by (simp add: field_simps)
  have b: "- (1 / 32767) \<le> real_of_int n / 32767 - x"
    using up assms by (simp add: field_simps)
  have "\<bar>real_of_int n / 32767 - x\<bar> \<le> 1 / 32767"
    using a b by linarith
  then show ?thesis
    unfolding e .
qed

lemma roundtrip_nonneg:
  assumes "0 \<le> x" and "x \<le> 1"
  shows "\<bar>float_sample (pcm16_sample x) - x\<bar> \<le> 1 / 32767"
proof -
  define n where "n = \<lfloor>x * 32767\<rfloor>"
  have up: "real_of_int n \<le> x * 32767" and lo: "x * 32767 - 1 < real_of_int n"
    unfolding n_def by linarith+
  have e: "float_sample (pcm16_sample x) = real_of_int n / 32767"
    using assms by (simp add: float_sample_def pcm16_sample_nonneg n_def)
  have a: "real_of_int n / 32767 - x \<le> 1 / 32767"
    using up by (simp add: field_simps)
  have b: "- (1 / 32767) \<le> real_of_int n / 32767 - x"
    using lo by (simp add: field_simps)
  have "\<bar>real_of_int n / 32767 - x\<bar> \<le> 1 / 32767"
    using a b by linarith
  then show ?thesis
    unfolding e .
qed


lemma int16_of_setInt16: "int16_pairs (setInt16 w @ bs) = w # int16_pairs bs"
proof -
  have "push_bit 8 (ucast (ucast (drop_bit 8 w) :: byte)) OR (ucast (ucast w :: byte) :: int16) = w"
    by (rule bit_word_eqI) (auto simp: bit_simps word_size)
  then show ?thesis
    by (simp add: setInt16_def)
qed

lemma int16_pairs_floatTo16BitPCM:
  "int16_pairs (floatTo16BitPCM xs) = map pcm16_sample xs"
  by (induction xs) (simp_all add: floatTo16BitPCM_def int16_of_setInt16)

lemma length_floatTo16BitPCM: "length (floatTo16BitPCM xs) = 2 * length xs"
  by (induction xs) (simp_all add: floatTo16BitPCM_def setInt16_def)

lemma fill_prefix:
  "k \<le> length s \<Longrightarrow> k \<le> length b \<Longrightarrow>
   foldl (\<lambda>b i. b[i := s ! i]) b [0..<k] = take k s @ drop k b"
proof (induction k)
  case 0
  then show ?case by simp
next
  case (Suc k)
  then have "foldl (\<lambda>b i. b[i := s ! i]) b [0..<Suc k] = (take k s @ drop k b)[k := s ! k]"
    by simp
  also have "\<dots> = take k s @ (drop k b)[0 := s ! k]"
    using Suc.prems by (simp add: list_update_append)
  also have "drop k b = b ! k # drop (Suc k) b"
    using Suc.prems by (simp add: Cons_nth_drop_Suc)
  also have "take k s @ (b ! k # drop (Suc k) b)[0 := s ! k] = take (Suc k) s @ drop (Suc k) b"
    using Suc.prems by (simp add: take_Suc_conv_app_nth)
  finally show ?case .
qed

lemma payload_bytes_eq: "payload_bytes s = s @ replicate (length s mod 2) 0"
proof -
  let ?n = "if length s mod 2 = 0 then length s else length s + 1"
  have "payload_bytes s = take (length s) s @ drop (length s) (replicate ?n (0 :: byte))"
    unfolding payload_bytes_def Let_def by (rule fill_prefix) simp_all
  also have "drop (length s) (replicate ?n (0 :: byte)) = replicate (?n - length s) 0"
    by (rule drop_replicate)
  also have "?n - length s = length s mod 2"
    by (cases "length s mod 2 = 0") simp_all
  finally show ?thesis by simp
qed

lemma length_payload_bytes: "length (payload_bytes s) = length s + length s mod 2"
  by (simp add: payload_bytes_eq)

lemma length_int16_pairs: "length (int16_pairs bs) = length bs div 2"
  by (induction bs rule: int16_pairs.induct) simp_all

lemma Int16Array_payload_bytes:
  "Int16Array (payload_bytes s) = Inr (int16_pairs (payload_bytes s))"
  by (simp add: Int16Array_def length_payload_bytes)

lemma samples_of_payload: "length (int16_pairs (payload_bytes s)) = (length s + 1) div 2"
  by (simp add: length_int16_pairs length_payload_bytes) presburger

text \<open>
  C9. A payload of odd length on the decode path: the byte buffer is the payload followed
  by one zero byte, so its length is even, the 16-bit view is built without a fault, and
  it holds half as many samples as the padded buffer has bytes. The result is a function
  of the payload alone.
\<close>

theorem odd_payload_is_padded:
  assumes "odd (length s)"
  shows "payload_bytes s = s @ [0] \<and> even (length (payload_bytes s)) \<and>
         Int16Array (payload_bytes s) = Inr (int16_pairs (s @ [0])) \<and>
         length (int16_pairs (s @ [0])) = (length s + 1) div 2"
proof -
  have p: "payload_bytes s = s @ [0]"
    using assms by (simp add: payload_bytes_eq odd_iff_mod_2_eq_one)
  have "Int16Array (payload_bytes s) = Inr (int16_pairs (s @ [0]))"
    using Int16Array_payload_bytes [of s] by (simp add: p)
  moreover have "length (int16_pairs (s @ [0])) = (length s + 1) div 2"
    using samples_of_payload [of s] by (simp add: p)
  ultimately show ?thesis
    using assms by (simp add: p)
qed

theorem odd_payload_is_padded_witness:
  "odd (length [1, 2, 3 :: byte]) \<and> payload_bytes [1, 2, 3] = [1, 2, 3, 0] \<and>
   Int16Array (payload_bytes [1, 2, 3]) = Inr [513, 3]"
proof -
  have o: "odd (length [1, 2, 3 :: byte])"
    by simp
  show ?thesis
    using o odd_payload_is_padded [OF o] by (simp add: Int16Array_def)
qed

lemma pcm16_sample_above: "1 \<le> y \<Longrightarrow> sint (pcm16_sample y) = 32767"
  using pcm16_sample_nonneg [of 1] pcm16_sample_clamped [of y] by (simp add: min_def max_def)

lemma pcm16_sample_below: "y \<le> - 1 \<Longrightarrow> sint (pcm16_sample y) = - 32768"
  using pcm16_sample_neg [of "- 1"] pcm16_sample_clamped [of y] by (simp add: min_def max_def)

lemma decode_of_encode:
  "Int16Array (payload_bytes (floatTo16BitPCM xs)) = Inr (map pcm16_sample xs)"
proof -
  have "payload_bytes (floatTo16BitPCM xs) = floatTo16BitPCM xs"
    by (simp add: payload_bytes_eq length_floatTo16BitPCM)
  then show ?thesis
    by (simp add: Int16Array_def length_floatTo16BitPCM int16_pairs_floatTo16BitPCM)
qed

text \<open>
  C5. A sample \<open>x\<close> between -1 and 1 is encoded as \<open>x\<close> times 32768 when negative and
  \<open>x\<close> times 32767 otherwise, with the fraction dropped, and fits a signed 16-bit integer;
  dividing the encoding by 32767 gives a value within 1/32767 of \<open>x\<close>. A sample above 1
  is encoded as 32767 and one below -1 as -32768, so values out of range are clipped. The
  bytes written by \<^verbatim>\<open>floatTo16BitPCM\<close> read back on the playback path as these encodings.
\<close>

theorem pcm16_round_trip:
  "(- 1 \<le> x \<and> x \<le> 1 \<longrightarrow>
      sint (pcm16_sample x) = (if x < 0 then \<lceil>x * 32768\<rceil> else \<lfloor>x * 32767\<rfloor>) \<and>
      \<bar>float_sample (pcm16_sample x) - x\<bar> \<le> 1 / 32767) \<and>
   (1 \<le> x \<longrightarrow> sint (pcm16_sample x) = 32767) \<and>
   (x \<le> - 1 \<longrightarrow> sint (pcm16_sample x) = - 32768) \<and>
   Int16Array (payload_bytes (floatTo16BitPCM xs)) = Inr (map pcm16_sample xs)"
proof (intro conjI impI)
  assume r: "- 1 \<le> x \<and> x \<le> 1"
  show "sint (pcm16_sample x) = (if x < 0 then \<lceil>x * 32768\<rceil> else \<lfloor>x * 32767\<rfloor>)"
    using r pcm16_sample_neg [of x] pcm16_sample_nonneg [of x] by simp
  show "\<bar>float_sample (pcm16_sample x) - x\<bar> \<le> 1 / 32767"
    using r roundtrip_neg [of x] roundtrip_nonneg [of x] by (cases "x < 0") simp_all
next
  show "sint (pcm16_sample x) = 32767" if "1 \<le> x"
    using that by (rule pcm16_sample_above)
  show "sint (pcm16_sample x) = - 32768" if "x \<le> - 1"
    using that by (rule pcm16_sample_below)
  show "Int16Array (payload_bytes (floatTo16BitPCM xs)) = Inr (map pcm16_sample xs)"
    by (rule decode_of_encode)
qed

theorem pcm16_round_trip_witness:
  "- 1 \<le> (- 1 :: real) \<and> (- 1 :: real) \<le> 1 \<and>
   sint (pcm16_sample (- 1)) = - 32768 \<and>
   \<bar>float_sample (pcm16_sample (- 1)) - (- 1)\<bar> \<le> 1 / 32767"
proof -
  have r: "- 1 \<le> (- 1 :: real) \<and> (- 1 :: real) \<le> 1"
    by simp
  note w = pcm16_round_trip [of "- 1" "[]", THEN conjunct1, THEN mp, OF r]
  show ?thesis
    using w by simp
qed

section \<open>Claims about the playback scheduler\<close>

lemma no_samples_iff: "int16_pairs (payload_bytes b) = [] \<longleftrightarrow> b = []"
proof -
  have "length (int16_pairs (payload_bytes b)) = 0 \<longleftrightarrow> length b = 0"
    unfolding samples_of_payload by presburger
  then show ?thesis by simp
qed

lemma playAudioChunk_schedules:
  assumes "audioContext st" and "b \<noteq> []"
  shows "playAudioChunk t (Some b) st =
           st\<lparr>sources := sources st @
                  [\<lparr>src_start = max t (nextStartTime st),
                    src_duration = real ((length b + 1) div 2) / 24000,
                    src_stopped = False\<rparr>],
               nextStartTime := max t (nextStartTime st) + real ((length b + 1) div 2) / 24000,
               audioQueue := audioQueue st @ [length (sources st)]\<rparr>"
  using assms
  by (simp add: playAudioChunk_def Int16Array_payload_bytes samples_of_payload no_samples_iff
      Let_def)

lemma playAudioChunk_skips:
  assumes "\<not> audioContext st \<or> payload = None \<or> payload = Some []"
  shows "playAudioChunk t payload st = st"
  using assms
  by (auto simp: playAudioChunk_def Int16Array_payload_bytes no_samples_iff Let_def
      split: option.splits)

lemma playAudioChunk_cases:
  obtains (skip) "playAudioChunk t payload st = st"
  | (play) b where "audioContext st" "b \<noteq> []" "payload = Some b"
proof (cases "\<not> audioContext st \<or> payload = None \<or> payload = Some []")
  case True
  then show ?thesis using playAudioChunk_skips skip by blast
next
  case False
  then show ?thesis using play by (cases payload) auto
qed

lemma chained_snoc:
  "chained (srcs @ [a]) \<longleftrightarrow>
     chained srcs \<and> (srcs \<noteq> [] \<longrightarrow> src_start (last srcs) + src_duration (last srcs) \<le> src_start a)"
  by (induction srcs rule: chained.induct) auto

lemma chained_nth:
  "chained srcs \<Longrightarrow> Suc i < length srcs \<Longrightarrow>
   src_start (srcs ! i) + src_duration (srcs ! i) \<le> src_start (srcs ! Suc i)"
proof (induction srcs arbitrary: i rule: chained.induct)
  case (1 a b srcs)
  then show ?case by (cases i) simp_all
qed simp_all

lemma scheduled_from_start: "scheduled_from (length (sources st)) st"
  by (simp add: scheduled_from_def)

lemma scheduled_from_step:
  assumes "scheduled_from k st"
  shows "scheduled_from k (playAudioChunk t payload st)"
proof (cases t payload st rule: playAudioChunk_cases)
  case skip
  then show ?thesis using assms by simp
next
  case (play b)
  let ?d = "real ((length b + 1) div 2) / 24000"
  let ?node = "\<lparr>src_start = max t (nextStartTime st), src_duration = ?d, src_stopped = False\<rparr>"
  have k: "k \<le> length (sources st)" and c: "chained (drop k (sources st))"
    using assms by (simp_all add: scheduled_from_def)
  have l: "src_start (last (drop k (sources st))) + src_duration (last (drop k (sources st)))
             \<le> src_start ?node" if "drop k (sources st) \<noteq> []"
  proof -
    have "k < length (sources st)" using that by simp
    then have "nextStartTime st =
        src_start (last (sources st)) + src_duration (last (sources st))"
      using assms by (simp add: scheduled_from_def)
    moreover have "last (drop k (sources st)) = last (sources st)"
      using \<open>k < length (sources st)\<close> by (simp add: last_drop)
    ultimately show ?thesis by simp
  qed
  have "chained (drop k (sources st) @ [?node])"
    using c l by (simp add: chained_snoc)
  then show ?thesis
    using k by (simp add: playAudioChunk_schedules [OF play(1,2)] play(3) scheduled_from_def)
qed

lemma scheduled_from_run:
  "scheduled_from k st \<Longrightarrow> scheduled_from k (play_chunks st chunks)"
  by (induction chunks arbitrary: st) (auto simp: scheduled_from_step)

lemma cursor_step: "nextStartTime st \<le> nextStartTime (playAudioChunk t payload st)"
proof (cases t payload st rule: playAudioChunk_cases)
  case skip
  then show ?thesis by simp
next
  case (play b)
  have "0 \<le> real ((length b + 1) div 2) / 24000"
    by simp
  then show ?thesis
    unfolding play(3) playAudioChunk_schedules [OF play(1,2)] by (simp add: max_def)
qed

lemma cursor_run: "nextStartTime st \<le> nextStartTime (play_chunks st chunks)"
proof (induction chunks arbitrary: st)
  case Nil
  then show ?case by simp
next
  case (Cons c chunks)
  obtain t payload where c: "c = (t, payload)"
    by (cases c)
  have "nextStartTime st \<le> nextStartTime (playAudioChunk t payload st)"
    by (rule cursor_step)
  also have "\<dots> \<le> nextStartTime (play_chunks (playAudioChunk t payload st) chunks)"
    by (rule Cons.IH)
  finally show ?case by (simp add: c)
qed

text \<open>
  C4. A chunk that is scheduled starts at the larger of the engine clock and the cursor,
  which is never in the past, and the cursor moves to its start plus its duration. Over any
  run of chunks with no other message between them, each node created ends no later than
  the next one starts, and the cursor never moves back.
\<close>

theorem chunks_play_back_to_back:
  "(audioContext st \<and> b \<noteq> [] \<longrightarrow>
      src_start (last (sources (playAudioChunk t (Some b) st))) = max t (nextStartTime st) \<and>
      src_duration (last (sources (playAudioChunk t (Some b) st))) =
        real ((length b + 1) div 2) / 24000 \<and>
      nextStartTime (playAudioChunk t (Some b) st) =
        src_start (last (sources (playAudioChunk t (Some b) st))) +
        src_duration (last (sources (playAudioChunk t (Some b) st)))) \<and>
   (\<forall>i. Suc i < length (drop (length (sources st)) (sources (play_chunks st chunks))) \<longrightarrow>
      src_start (drop (length (sources st)) (sources (play_chunks st chunks)) ! i) +
      src_duration (drop (length (sources st)) (sources (play_chunks st chunks)) ! i)
        \<le> src_start (drop (length (sources st)) (sources (play_chunks st chunks)) ! Suc i)) \<and>
   nextStartTime st \<le> nextStartTime (play_chunks st chunks)"
proof (intro conjI impI allI)
  assume a: "audioContext st \<and> b \<noteq> []"
  note e = playAudioChunk_schedules [of st b t]
  show "src_start (last (sources (playAudioChunk t (Some b) st))) = max t (nextStartTime st)"
    using a by (simp add: e)
  show "src_duration (last (sources (playAudioChunk t (Some b) st))) =
        real ((length b + 1) div 2) / 24000"
    using a by (simp add: e)
  show "nextStartTime (playAudioChunk t (Some b) st) =
        src_start (last (sources (playAudioChunk t (Some b) st))) +
        src_duration (last (sources (playAudioChunk t (Some b) st)))"
    using a by (simp add: e)
next
  fix i
  let ?new = "drop (length (sources st)) (sources (play_chunks st chunks))"
  assume i: "Suc i < length ?new"
  have "scheduled_from (length (sources st)) (play_chunks st chunks)"
    by (intro scheduled_from_run scheduled_from_start)
  then have "chained ?new"
    by (simp add: scheduled_from_def)
  then show "src_start (?new ! i) + src_duration (?new ! i) \<le> src_start (?new ! Suc i)"
    using i by (rule chained_nth)
next
  show "nextStartTime st \<le> nextStartTime (play_chunks st chunks)"
    by (rule cursor_run)
qed

theorem chunks_play_back_to_back_witness:
  "sources (play_chunks initial_playback [(1, Some [0, 0, 0, 0]), (1, Some [1, 2, 3])]) =
     [\<lparr>src_start = 1, src_duration = 1 / 12000, src_stopped = False\<rparr>,
      \<lparr>src_start = 12001 / 12000, src_duration = 1 / 12000, src_stopped = False\<rparr>] \<and>
   (1 :: real) + 1 / 12000 \<le> 12001 / 12000"
proof -
  let ?chunks = "[(1 :: real, Some [0, 0, 0, 0 :: byte]), (1, Some [1, 2, 3])]"
  have s: "sources (play_chunks initial_playback ?chunks) =
     [\<lparr>src_start = 1, src_duration = 1 / 12000, src_stopped = False\<rparr>,
      \<lparr>src_start = 12001 / 12000, src_duration = 1 / 12000, src_stopped = False\<rparr>]"
    by (simp add: playAudioChunk_schedules initial_playback_def)
  have "\<forall>i. Suc i < length (drop (length (sources initial_playback))
                               (sources (play_chunks initial_playback ?chunks))) \<longrightarrow>
      src_start (drop (length (sources initial_playback))
                   (sources (play_chunks initial_playback ?chunks)) ! i) +
      src_duration (drop (length (sources initial_playback))
                      (sources (play_chunks initial_playback ?chunks)) ! i)
        \<le> src_start (drop (length (sources initial_playback))
                        (sources (play_chunks initial_playback ?chunks)) ! Suc i)"
    by (rule chunks_play_back_to_back [of initial_playback "[]" 0 ?chunks,
          THEN conjunct2, THEN conjunct1])
  from this [rule_format, of 0] have "(1 :: real) + 1 / 12000 \<le> 12001 / 12000"
    unfolding s by (simp add: initial_playback_def)
  then show ?thesis
    using s by simp
qed

text \<open>Stopping the queue, and the invariant that links the queue to the nodes.\<close>

lemma length_stop_source: "length (stop_source srcs i) = length srcs"
  by (simp add: stop_source_def)

lemma length_stop_all: "length (foldl stop_source srcs q) = length srcs"
  by (induction q arbitrary: srcs) (simp_all add: length_stop_source)

lemma stopped_stop_source:
  "i < length srcs \<Longrightarrow>
   src_stopped (stop_source srcs a ! i) \<longleftrightarrow> src_stopped (srcs ! i) \<or> i = a"
  by (auto simp: stop_source_def nth_list_update)

lemma stopped_stop_all:
  "i < length srcs \<Longrightarrow>
   src_stopped (foldl stop_source srcs q ! i) \<longleftrightarrow> src_stopped (srcs ! i) \<or> i \<in> set q"
proof (induction q arbitrary: srcs)
  case Nil
  then show ?case by simp
next
  case (Cons a q)
  have "i < length (stop_source srcs a)"
    using Cons.prems by (simp add: length_stop_source)
  then have "src_stopped (foldl stop_source (stop_source srcs a) q ! i) \<longleftrightarrow>
             src_stopped (stop_source srcs a ! i) \<or> i \<in> set q"
    by (rule Cons.IH)
  then show ?case
    using Cons.prems by (auto simp: stopped_stop_source)
qed

lemma queue_holds_playing_iff:
  "queue_holds_playing st \<longleftrightarrow>
     audioContext st \<and>
     (\<forall>i<length (sources st). src_stopped (sources st ! i) \<or> i \<in> set (audioQueue st)) \<and>
     (\<forall>i\<in>set (audioQueue st). i < length (sources st))"
  by (auto simp: queue_holds_playing_def list_all_iff)

lemma queue_holds_playing_initial: "queue_holds_playing initial_playback"
  by (simp add: queue_holds_playing_def initial_playback_def)

lemma queue_holds_playing_play:
  assumes "queue_holds_playing st"
  shows "queue_holds_playing (playAudioChunk t payload st)"
proof (cases t payload st rule: playAudioChunk_cases)
  case skip
  then show ?thesis using assms by simp
next
  case (play b)
  show ?thesis
    using assms unfolding play(3) playAudioChunk_schedules [OF play(1,2)] queue_holds_playing_iff
    by (auto simp: nth_append less_Suc_eq)
qed

lemma stopAudioPlayback_stops:
  assumes "queue_holds_playing st"
  shows "(\<forall>i<length (sources (stopAudioPlayback st)). src_stopped (sources (stopAudioPlayback st) ! i))"
    and "length (sources (stopAudioPlayback st)) = length (sources st)"
    and "audioQueue (stopAudioPlayback st) = []"
    and "nextStartTime (stopAudioPlayback st) = 0"
    and "audioContext (stopAudioPlayback st)"
  using assms
  by (auto simp: stopAudioPlayback_def queue_holds_playing_iff length_stop_all stopped_stop_all)

lemma queue_holds_playing_stop:
  assumes "queue_holds_playing st"
  shows "queue_holds_playing (stopAudioPlayback st)"
  unfolding queue_holds_playing_iff
  using stopAudioPlayback_stops [OF assms] by simp

lemma queue_holds_playing_message:
  "queue_holds_playing st \<Longrightarrow> queue_holds_playing (handleServerMessage t mtype delta st)"
  by (simp add: handleServerMessage_def queue_holds_playing_play queue_holds_playing_stop)

lemma queue_holds_playing_run:
  "queue_holds_playing st \<Longrightarrow> queue_holds_playing (run_messages st ms)"
  by (induction ms arbitrary: st) (auto simp: queue_holds_playing_message)

text \<open>
  C3, as stated, fails: a \<^verbatim>\<open>speech_started\<close> signal that arrives at engine clock 5 leaves
  the cursor at 0, not at 5, and a chunk that arrives at clock 7 then starts at 7.
\<close>

theorem cursor_reset_is_zero:
  "nextStartTime (handleServerMessage 5 ''input_audio_buffer.speech_started'' None
      (playAudioChunk 1 (Some [0, 0, 0, 0]) initial_playback)) = 0 \<and>
   src_start (last (sources (playAudioChunk 7 (Some [0, 0])
      (handleServerMessage 5 ''input_audio_buffer.speech_started'' None
         (playAudioChunk 1 (Some [0, 0, 0, 0]) initial_playback))))) = 7"
  by (simp add: handleServerMessage_def stopAudioPlayback_def playAudioChunk_schedules
      initial_playback_def)

text \<open>
  C3, amended. On a \<^verbatim>\<open>speech_started\<close> signal, in any state the client reaches from its
  initial one, every node created so far is stopped, the queue is emptied and the cursor is
  set to 0; the next chunk scheduled then starts at the engine clock read when that chunk
  is scheduled, not at an earlier cursor value.
\<close>

theorem barge_in_stops_playback:
  "(\<forall>i<length (sources (handleServerMessage t ''input_audio_buffer.speech_started'' delta
                          (run_messages initial_playback ms))).
      src_stopped (sources (handleServerMessage t ''input_audio_buffer.speech_started'' delta
                              (run_messages initial_playback ms)) ! i)) \<and>
   audioQueue (handleServerMessage t ''input_audio_buffer.speech_started'' delta
                 (run_messages initial_playback ms)) = [] \<and>
   nextStartTime (handleServerMessage t ''input_audio_buffer.speech_started'' delta
                    (run_messages initial_playback ms)) = 0 \<and>
   (0 \<le> t' \<and> b \<noteq> [] \<longrightarrow>
      src_start (last (sources (playAudioChunk t' (Some b)
         (handleServerMessage t ''input_audio_buffer.speech_started'' delta
            (run_messages initial_playback ms))))) = t')"
proof -
  let ?st = "run_messages initial_playback ms"
  have e: "handleServerMessage t ''input_audio_buffer.speech_started'' delta ?st =
           stopAudioPlayback ?st"
    by (simp add: handleServerMessage_def)
  have q: "queue_holds_playing ?st"
    by (intro queue_holds_playing_run queue_holds_playing_initial)
  note s = stopAudioPlayback_stops [OF q]
  have n: "src_start (last (sources (playAudioChunk t' (Some b) (stopAudioPlayback ?st)))) = t'"
    if "0 \<le> t' \<and> b \<noteq> []"
    using that s(4,5) by (simp add: playAudioChunk_schedules)
  show ?thesis
    unfolding e using s(1,3,4) n by blast
qed

theorem barge_in_stops_playback_witness:
  "sources (handleServerMessage 5 ''input_audio_buffer.speech_started'' None
      (run_messages initial_playback
         [(1, ''response.audio.delta'', Some [0, 0, 0, 0]),
          (1, ''response.audio.delta'', Some [1, 2, 3])])) =
     [\<lparr>src_start = 1, src_duration = 1 / 12000, src_stopped = True\<rparr>,
      \<lparr>src_start = 12001 / 12000, src_duration = 1 / 12000, src_stopped = True\<rparr>] \<and>
   src_start (last (sources (playAudioChunk 7 (Some [0, 0])
      (handleServerMessage 5 ''input_audio_buffer.speech_started'' None
         (run_messages initial_playback
            [(1, ''response.audio.delta'', Some [0, 0, 0, 0]),
             (1, ''response.audio.delta'', Some [1, 2, 3])]))))) = 7"
proof -
  let ?ms = "[(1 :: real, ''response.audio.delta'', Some [0, 0, 0, 0 :: byte]),
              (1, ''response.audio.delta'', Some [1, 2, 3])]"
  let ?st = "handleServerMessage 5 ''input_audio_buffer.speech_started'' None
               (run_messages initial_playback ?ms)"
  note w = barge_in_stops_playback [of 5 None ?ms 7 "[0, 0]"]
  have s: "sources ?st =
     [\<lparr>src_start = 1, src_duration = 1 / 12000, src_stopped = True\<rparr>,
      \<lparr>src_start = 12001 / 12000, src_duration = 1 / 12000, src_stopped = True\<rparr>]"
    by (simp add: handleServerMessage_def stopAudioPlayback_def playAudioChunk_schedules
        initial_playback_def stop_source_def)
  have "(0 :: real) \<le> 7 \<and> [0, 0 :: byte] \<noteq> []"
    by simp
  then have "src_start (last (sources (playAudioChunk 7 (Some [0, 0]) ?st))) = 7"
    by (rule w [THEN conjunct2, THEN conjunct2, THEN conjunct2, THEN mp])
  then show ?thesis
    using s by simp
qed

end
